theory Spec2Isabelle
  imports Complex_Main "HOL-Library.Sublist" "HOL-Library.Multiset" "HOL-Library.Product_Lexorder"
begin

section \<open>Runtime functions used by the search router\<close>

text \<open>
  Strings are lists of characters. \<open>toLowerCase\<close> is modelled on ASCII letters;
  every other character is left as it is. \<open>str_includes s t\<close> is
  \<^verbatim>\<open>s.includes(t)\<close>: \<open>t\<close> occurs in \<open>s\<close> as a contiguous substring.
\<close>

definition lower_char :: "char \<Rightarrow> char" where
  "lower_char c =
     (let n = (of_char c :: nat) in if 65 \<le> n \<and> n \<le> 90 then char_of (n + 32) else c)"

definition toLowerCase :: "string \<Rightarrow> string" where
  "toLowerCase s = map lower_char s"

definition str_includes :: "string \<Rightarrow> string \<Rightarrow> bool" where
  "str_includes s t = sublist t s"

definition arr_includes :: "string list \<Rightarrow> string \<Rightarrow> bool" where
  "arr_includes xs x = (x \<in> set xs)"

fun join :: "string \<Rightarrow> string list \<Rightarrow> string" where
  "join sep [] = []"
| "join sep [x] = x"
| "join sep (x # y # ys) = x @ sep @ join sep (y # ys)"

text \<open>A missing value interpolated into a template string prints as \<open>undefined\<close>.\<close>

definition tmpl :: "string option \<Rightarrow> string" where
  "tmpl v = (case v of None \<Rightarrow> ''undefined'' | Some s \<Rightarrow> s)"

text \<open>
  Numbers. The numbers the router computes with are double-precision; one is modelled as
  a finite number, read as a real, or as NaN. The only arithmetic the router's own code
  does on them is the difference of two distances, of which only the sign is used: the
  difference of two finite doubles has the sign of their exact difference.
\<close>

datatype jsnum = Num real | NaN

definition js_sub :: "jsnum \<Rightarrow> jsnum \<Rightarrow> jsnum" where
  "js_sub a b =
     (case a of NaN \<Rightarrow> NaN
      | Num x \<Rightarrow> (case b of NaN \<Rightarrow> NaN | Num y \<Rightarrow> Num (x - y)))"

text \<open>
  How the runtime's sort reads the value a comparator returns: NaN counts as \<open>+0\<close>, and
  then only the tests \<open>< 0\<close> and \<open>> 0\<close> matter.
\<close>

definition js_lt0 :: "jsnum \<Rightarrow> bool" where
  "js_lt0 v = (case v of NaN \<Rightarrow> False | Num r \<Rightarrow> r < 0)"

definition js_gt0 :: "jsnum \<Rightarrow> bool" where
  "js_gt0 v = (case v of NaN \<Rightarrow> False | Num r \<Rightarrow> 0 < r)"

text \<open>
  \<^verbatim>\<open>Array.prototype.sort(compare)\<close> belongs to the runtime, so the functions that call
  it take it as a parameter \<open>arraySort\<close>. The language standard promises two things
  of it.
  The result is a permutation of the array. And when the comparator is a consistent
  ordering the result is in that order and stable; a comparator whose sign agrees with
  the order of a key is consistent, and the result is then the stable sort by that key.
  When the comparator is not consistent, the order is left to the engine.
\<close>

definition permuting :: "(('a \<Rightarrow> 'a \<Rightarrow> jsnum) \<Rightarrow> 'a list \<Rightarrow> 'a list) \<Rightarrow> bool" where
  "permuting arraySort = (\<forall>cmp xs. mset (arraySort cmp xs) = mset xs)"

definition agrees :: "('a \<Rightarrow> 'a \<Rightarrow> jsnum) \<Rightarrow> ('a \<Rightarrow> int \<times> real) \<Rightarrow> 'a set \<Rightarrow> bool" where
  "agrees cmp key S =
     (\<forall>a \<in> S. \<forall>b \<in> S. (js_lt0 (cmp a b) = (key a < key b)) \<and> (js_gt0 (cmp a b) = (key b < key a)))"

definition conforming :: "(('a \<Rightarrow> 'a \<Rightarrow> jsnum) \<Rightarrow> 'a list \<Rightarrow> 'a list) \<Rightarrow> bool" where
  "conforming arraySort =
     (permuting arraySort \<and>
      (\<forall>cmp xs (key :: 'a \<Rightarrow> int \<times> real).
         agrees cmp key (set xs) \<longrightarrow> arraySort cmp xs = sort_key key xs))"

text \<open>
  A sort that keeps both promises: stable insertion sort. It shows that the promises can
  be kept; it is not the engine's algorithm.
\<close>

fun insertSorted :: "('a \<Rightarrow> 'a \<Rightarrow> jsnum) \<Rightarrow> 'a \<Rightarrow> 'a list \<Rightarrow> 'a list" where
  "insertSorted cmp x [] = [x]"
| "insertSorted cmp x (y # ys) =
     (if js_gt0 (cmp x y) then y # insertSorted cmp x ys else x # y # ys)"

fun insertionSort :: "('a \<Rightarrow> 'a \<Rightarrow> jsnum) \<Rightarrow> 'a list \<Rightarrow> 'a list" where
  "insertionSort cmp [] = []"
| "insertionSort cmp (x # xs) = insertSorted cmp x (insertionSort cmp xs)"

text \<open>
  The engine's algorithm on an array of fewer than 64 elements, where its merge sort
  never merges: it takes the run the array starts with (\<open>CountAndMakeRun\<close>: the longest
  prefix that is ascending, or strictly descending and then reversed) and inserts each
  remaining element into it by binary search (\<open>BinaryInsertionSort\<close>). Longer arrays
  are cut into such runs and merged; that part is not modelled, and \<open>engineSort\<close>
  answers \<open>None\<close> for them.
\<close>

fun runRest :: "bool \<Rightarrow> ('a \<Rightarrow> 'a \<Rightarrow> jsnum) \<Rightarrow> 'a \<Rightarrow> 'a list \<Rightarrow> nat" where
  "runRest isDescending cmp previousElement [] = 0"
| "runRest isDescending cmp previousElement (currentElement # rest) =
     (if js_lt0 (cmp currentElement previousElement) = isDescending
      then Suc (runRest isDescending cmp currentElement rest) else 0)"

fun countAndMakeRun :: "('a \<Rightarrow> 'a \<Rightarrow> jsnum) \<Rightarrow> 'a list \<Rightarrow> 'a list \<times> 'a list" where
  "countAndMakeRun cmp [] = ([], [])"
| "countAndMakeRun cmp [x] = ([x], [])"
| "countAndMakeRun cmp (elementHigh # elementLow # rest) =
     (let isDescending = js_lt0 (cmp elementLow elementHigh);
          runLength = 2 + runRest isDescending cmp elementLow rest;
          run = take runLength (elementHigh # elementLow # rest)
      in (if isDescending then rev run else run, drop runLength (elementHigh # elementLow # rest)))"

function findSlot :: "('a \<Rightarrow> 'a \<Rightarrow> jsnum) \<Rightarrow> 'a \<Rightarrow> 'a list \<Rightarrow> nat \<Rightarrow> nat \<Rightarrow> nat" where
  "findSlot cmp pivot work left right =
     (if left < right then
        (if js_lt0 (cmp pivot (work ! (left + (right - left) div 2)))
         then findSlot cmp pivot work left (left + (right - left) div 2)
         else findSlot cmp pivot work (left + (right - left) div 2 + 1) right)
      else left)"
  by pat_completeness auto
termination
  by (relation "measure (\<lambda>(cmp, pivot, work, left, right). right - left)") auto

declare findSlot.simps [simp del]

definition insertPivot :: "('a \<Rightarrow> 'a \<Rightarrow> jsnum) \<Rightarrow> 'a list \<Rightarrow> 'a \<Rightarrow> 'a list" where
  "insertPivot cmp work pivot =
     (let left = findSlot cmp pivot work 0 (length work)
      in take left work @ pivot # drop left work)"

definition binaryInsertionSort :: "('a \<Rightarrow> 'a \<Rightarrow> jsnum) \<Rightarrow> 'a list \<Rightarrow> 'a list \<Rightarrow> 'a list" where
  "binaryInsertionSort cmp run rest = foldl (insertPivot cmp) run rest"

definition engineSort :: "('a \<Rightarrow> 'a \<Rightarrow> jsnum) \<Rightarrow> 'a list \<Rightarrow> 'a list option" where
  "engineSort cmp xs =
     (if length xs < 64
      then Some (case countAndMakeRun cmp xs of (run, rest) \<Rightarrow> binaryInsertionSort cmp run rest)
      else None)"

section \<open>Data model\<close>

text \<open>
  A place as the place-search provider returns it, with the fields of the request's
  field mask. Every field may be missing. \<open>displayName\<close> stands for
  \<^verbatim>\<open>displayName?.text\<close>.
\<close>

record LatLng =
  latitude :: real
  longitude :: real

record Place =
  displayName :: "string option"
  formattedAddress :: "string option"
  internationalPhoneNumber :: "string option"
  websiteUri :: "string option"
  rating :: "real option"
  userRatingCount :: "nat option"
  types :: "string list option"
  businessStatus :: "string option"
  location :: "LatLng option"

text \<open>The geocoder's answer for the user's location.\<close>

record Coords =
  lat :: real
  lng :: real
  country :: string

record DistanceInfo =
  km :: jsnum
  miles :: jsnum

text \<open>
  \<^verbatim>\<open>{...place, distance, directions}\<close>: the place extended with its distance. The
  directions links are carried along and never read by filtering, ranking or
  enrichment; they are left out of the model.
\<close>

record Facility = Place +
  distance :: "DistanceInfo option"

datatype unit_of_length = Kilometres | Miles

section \<open>Distance\<close>

text \<open>
  \<open>calculateDistance\<close> is the haversine formula in double-precision arithmetic
  (\<^verbatim>\<open>Math.sin\<close>, \<^verbatim>\<open>Math.cos\<close>, \<^verbatim>\<open>Math.sqrt\<close>, \<^verbatim>\<open>Math.atan2\<close>, \<^verbatim>\<open>Math.round\<close>). What it
  returns depends on the rounding of every step: where rounding lifts the intermediate
  \<open>a\<close> above 1, \<^verbatim>\<open>Math.sqrt(1 - a)\<close> is NaN and so is the result. The functions that
  call it take it as a parameter \<open>calc\<close>, and nothing is assumed of it: the result of a
  call is a finite number or NaN.
\<close>

type_synonym distance_function = "real \<Rightarrow> real \<Rightarrow> real \<Rightarrow> real \<Rightarrow> unit_of_length \<Rightarrow> jsnum"

section \<open>Deduplication\<close>

text \<open>
  The current router and its first copies keep a set of the keys seen so far; the key
  is the template string \<^verbatim>\<open>`${name}-${address}`\<close>.
\<close>

definition placeId :: "Place \<Rightarrow> string" where
  "placeId facility = tmpl (displayName facility) @ ''-'' @ tmpl (formattedAddress facility)"

fun uniqueLoop :: "string list \<Rightarrow> Place list \<Rightarrow> Place list" where
  "uniqueLoop seenPlaces [] = []"
| "uniqueLoop seenPlaces (facility # rest) =
     (if placeId facility \<notin> set seenPlaces
      then facility # uniqueLoop (placeId facility # seenPlaces) rest
      else uniqueLoop seenPlaces rest)"

definition uniqueFacilities :: "Place list \<Rightarrow> Place list" where
  "uniqueFacilities allFacilities = uniqueLoop [] allFacilities"

text \<open>
  The oldest copy of the router keeps an element when its index is the index of the
  first element with the same name and the same address
  (\<^verbatim>\<open>filter((facility, index, self) => index === self.findIndex(...))\<close>).
\<close>

definition samePlace :: "Place \<Rightarrow> Place \<Rightarrow> bool" where
  "samePlace f facility =
     (displayName f = displayName facility \<and> formattedAddress f = formattedAddress facility)"

fun findIndex :: "('a \<Rightarrow> bool) \<Rightarrow> 'a list \<Rightarrow> nat option" where
  "findIndex P [] = None"
| "findIndex P (x # xs) =
     (if P x then Some 0 else (case findIndex P xs of None \<Rightarrow> None | Some i \<Rightarrow> Some (Suc i)))"

definition uniqueFacilitiesByIndex :: "Place list \<Rightarrow> Place list" where
  "uniqueFacilitiesByIndex self =
     map fst (filter (\<lambda>(facility, index). findIndex (\<lambda>f. samePlace f facility) self = Some index)
       (zip self [0 ..< length self]))"

section \<open>Relevance filter\<close>

definition lowerName :: "'a Place_scheme \<Rightarrow> string" where
  "lowerName facility = (case displayName facility of None \<Rightarrow> [] | Some s \<Rightarrow> toLowerCase s)"

definition typesStr :: "'a Place_scheme \<Rightarrow> string" where
  "typesStr facility =
     toLowerCase (join '' '' (case types facility of None \<Rightarrow> [] | Some ts \<Rightarrow> ts))"

definition keepFacility :: "string list \<Rightarrow> Place \<Rightarrow> bool" where
  "keepFacility needTypes facility =
     (let name = lowerName facility; tys = typesStr facility in
      if str_includes name ''pet'' \<or> str_includes name ''veterinary'' \<or>
         str_includes name ''animal'' \<or> str_includes tys ''veterinary'' \<or>
         str_includes name ''vet '' then False
      else if arr_includes needTypes ''emergency'' \<and>
         (str_includes name ''hospital'' \<or> str_includes name ''emergency'' \<or>
          str_includes name ''medical center'' \<or> str_includes name ''trauma'' \<or>
          str_includes name ''stroke center'' \<or> str_includes tys ''hospital'' \<or>
          str_includes tys ''emergency'' \<or> str_includes name ''urgent care'') then True
      else if arr_includes needTypes ''rehabilitation'' \<and>
         (str_includes name ''rehabilitation'' \<or> str_includes name ''rehab'' \<or>
          str_includes name ''recovery'' \<or> str_includes name ''therapy'' \<or>
          str_includes name ''physical therapy'' \<or> str_includes name ''speech'' \<or>
          str_includes name ''occupational'' \<or> str_includes tys ''physiotherapist'' \<or>
          str_includes tys ''rehabilitation'') then True
      else if arr_includes needTypes ''speech-therapy'' \<and>
         (str_includes name ''speech'' \<or> str_includes name ''language'' \<or>
          str_includes name ''communication'' \<or> str_includes tys ''speech'') then True
      else if arr_includes needTypes ''physical-therapy'' \<and>
         (str_includes name ''physical therapy'' \<or> str_includes name ''physiotherapy'' \<or>
          str_includes name ''physical rehab'' \<or> str_includes tys ''physiotherapist'') then True
      else if arr_includes needTypes ''occupational-therapy'' \<and>
         (str_includes name ''occupational'' \<or> str_includes name ''occupational therapy'' \<or>
          str_includes tys ''occupational'') then True
      else if arr_includes needTypes ''support-groups'' \<and>
         (str_includes name ''support'' \<or> str_includes name ''community'' \<or>
          str_includes name ''group'' \<or> str_includes name ''center'' \<or>
          str_includes name ''association'' \<or> str_includes tys ''community_center'') then True
      else if str_includes name ''hospital'' \<or> str_includes name ''medical center'' \<or>
         str_includes tys ''hospital'' then True
      else False)"

definition filterFacilitiesByServiceType :: "Place list \<Rightarrow> string list \<Rightarrow> Place list" where
  "filterFacilitiesByServiceType facilities needTypes = filter (keepFacility needTypes) facilities"

section \<open>Scoring, ranking and the radius cutoff\<close>

text \<open>The score the sort comparator computes from a lower-cased name.\<close>

definition priorityScore :: "string \<Rightarrow> int" where
  "priorityScore aName =
     (let aIsStrokeCenter = (if str_includes aName ''stroke'' then 10 else 0);
          aIsHospital =
            (if (str_includes aName ''hospital'' \<or> str_includes aName ''medical center'') \<and>
                \<not> str_includes aName ''urgent'' \<and> \<not> str_includes aName ''eye'' \<and>
                \<not> str_includes aName ''dental'' \<and> \<not> str_includes aName ''skin'' \<and>
                \<not> str_includes aName ''ent'' then 8 else 0);
          aIsEmergency =
            (if str_includes aName ''emergency'' \<and> \<not> str_includes aName ''urgent''
             then 6 else 0);
          aIsTrauma = (if str_includes aName ''trauma'' then 7 else 0);
          aIsUrgentCare = (if str_includes aName ''urgent'' then 3 else 0)
      in aIsStrokeCenter + aIsHospital + aIsEmergency + aIsTrauma + aIsUrgentCare)"

definition distanceDifference :: "DistanceInfo option \<Rightarrow> DistanceInfo option \<Rightarrow> jsnum" where
  "distanceDifference da db =
     (case da of None \<Rightarrow> Num 0
      | Some a \<Rightarrow> (case db of None \<Rightarrow> Num 0 | Some b \<Rightarrow> js_sub (miles a) (miles b)))"

definition rankCompare :: "string list \<Rightarrow> Facility \<Rightarrow> Facility \<Rightarrow> jsnum" where
  "rankCompare needTypes a b =
     (let aScore = priorityScore (lowerName a); bScore = priorityScore (lowerName b) in
      if arr_includes needTypes ''emergency'' \<and> aScore \<noteq> bScore
      then Num (of_int (bScore - aScore))
      else distanceDifference (distance a) (distance b))"

definition withDetails :: "distance_function \<Rightarrow> Coords option \<Rightarrow> Place \<Rightarrow> Facility" where
  "withDetails calc userCoords place =
     \<lparr> displayName = displayName place,
       formattedAddress = formattedAddress place,
       internationalPhoneNumber = internationalPhoneNumber place,
       websiteUri = websiteUri place,
       rating = rating place,
       userRatingCount = userRatingCount place,
       types = types place,
       businessStatus = businessStatus place,
       location = location place,
       distance =
         (case userCoords of None \<Rightarrow> None
          | Some uc \<Rightarrow>
              (case location place of None \<Rightarrow> None
               | Some fc \<Rightarrow>
                   Some \<lparr> km = calc (lat uc) (lng uc) (latitude fc) (longitude fc) Kilometres,
                          miles = calc (lat uc) (lng uc) (latitude fc) (longitude fc) Miles \<rparr>)) \<rparr>"

definition maxDistance :: "string list \<Rightarrow> real" where
  "maxDistance needTypes = (if arr_includes needTypes ''support-groups'' then 50 else 31)"

text \<open>
  \<^verbatim>\<open>if (facility.distance && facility.distance.miles) return miles <= maxDistance;
  return true\<close>: a distance of zero miles and a distance of NaN miles are falsy and take
  the second branch.
\<close>

definition withinRadius :: "real \<Rightarrow> Facility \<Rightarrow> bool" where
  "withinRadius maxD facility =
     (case distance facility of None \<Rightarrow> True
      | Some d \<Rightarrow>
          (case miles d of NaN \<Rightarrow> True
           | Num m \<Rightarrow> if m \<noteq> 0 then m \<le> maxD else True))"

text \<open>
  \<open>getRealFacilities\<close> after the provider calls: \<open>userCoords\<close> is the geocoder's
  answer and \<open>allFacilities\<close> the places collected from all queries, in order.
\<close>

definition sortedFacilities ::
  "((Facility \<Rightarrow> Facility \<Rightarrow> jsnum) \<Rightarrow> Facility list \<Rightarrow> Facility list) \<Rightarrow> distance_function \<Rightarrow>
   Coords option \<Rightarrow> string list \<Rightarrow> Place list \<Rightarrow> Facility list" where
  "sortedFacilities arraySort calc userCoords needTypes allFacilities =
     arraySort (rankCompare needTypes)
       (map (withDetails calc userCoords)
         (filterFacilitiesByServiceType (uniqueFacilities allFacilities) needTypes))"

definition getRealFacilities ::
  "((Facility \<Rightarrow> Facility \<Rightarrow> jsnum) \<Rightarrow> Facility list \<Rightarrow> Facility list) \<Rightarrow> distance_function \<Rightarrow>
   Coords option \<Rightarrow> string list \<Rightarrow> Place list \<Rightarrow> Facility list" where
  "getRealFacilities arraySort calc userCoords needTypes allFacilities =
     filter (withinRadius (maxDistance needTypes))
       (sortedFacilities arraySort calc userCoords needTypes allFacilities)"

section \<open>Enrichment\<close>

text \<open>
  The insight fields of one facility. In the generative service's answer any of them
  may be missing, so each is optional.
\<close>

record Insights =
  medical_relevance :: "string option"
  language_support :: "string option"
  language_note :: "string option"
  service_match :: "string option"
  specialty_note :: "string option"
  facility_type :: "string option"

record Patterns =
  hospital_language_support :: "string option"
  urgent_care_language_support :: "string option"
  clinic_language_support :: "string option"
  general_language_note :: "string option"

text \<open>
  The parsed answer of the generative service: a list of per-facility entries (an entry
  may be null) and a block of patterns. An entry is read with the six insight keys the
  router uses; other keys it might carry are not modelled. \<open>aiAnalysis = None\<close> is
  the state after the call or \<^verbatim>\<open>JSON.parse\<close> threw.
\<close>

record Analysis =
  facilities :: "Insights option list option"
  patterns :: "Patterns option"

definition truthy :: "string option \<Rightarrow> bool" where
  "truthy v = (case v of None \<Rightarrow> False | Some s \<Rightarrow> s \<noteq> [])"

definition aiEntry :: "Analysis option \<Rightarrow> nat \<Rightarrow> Insights option" where
  "aiEntry aiAnalysis index =
     (case aiAnalysis of None \<Rightarrow> None
      | Some an \<Rightarrow>
          (case facilities an of None \<Rightarrow> None
           | Some es \<Rightarrow> if index < length es then es ! index else None))"

definition getFacilityType :: "Facility \<Rightarrow> string" where
  "getFacilityType facility =
     (let name = lowerName facility; tys = typesStr facility in
      if str_includes name ''hospital'' \<or> str_includes tys ''hospital'' then ''hospital''
      else if str_includes name ''urgent care'' \<or> str_includes name ''urgent'' then ''urgent_care''
      else if str_includes name ''clinic'' \<or> str_includes tys ''clinic'' then ''clinic''
      else if str_includes name ''center'' \<and>
              (str_includes name ''stroke'' \<or> str_includes name ''heart'' \<or>
               str_includes name ''neuro'') then ''specialty_center''
      else ''other'')"

definition overrideInsights :: "string \<Rightarrow> Insights" where
  "overrideInsights note =
     \<lparr> medical_relevance = Some ''Low'',
       language_support = Some ''Unknown'',
       language_note = Some ''Language support not assessed'',
       service_match = Some ''Poor'',
       specialty_note = Some note,
       facility_type = Some ''specialty_hospital'' \<rparr>"

definition therapyRequested :: "string list \<Rightarrow> bool" where
  "therapyRequested needTypes =
     (arr_includes needTypes ''rehabilitation'' \<or> arr_includes needTypes ''speech-therapy'' \<or>
      arr_includes needTypes ''physical-therapy'' \<or> arr_includes needTypes ''occupational-therapy'')"

text \<open>The service-specific override at the head of \<open>applyAIInsights\<close>.\<close>

definition serviceOverride :: "string list \<Rightarrow> string \<Rightarrow> Insights option" where
  "serviceOverride needTypes name =
     (if arr_includes needTypes ''emergency'' \<and>
         (str_includes name ''eye'' \<or> str_includes name ''dental'' \<or> str_includes name ''skin'' \<or>
          str_includes name ''ent'' \<or> str_includes name ''dermat'' \<or> str_includes name ''ophthalm'')
      then Some (overrideInsights ''Specialty hospital - not equipped for stroke emergencies'')
      else if therapyRequested needTypes \<and>
         (str_includes name ''eye'' \<or> str_includes name ''dental'')
      then Some (overrideInsights ''Specialty hospital - not relevant for stroke rehabilitation'')
      else if arr_includes needTypes ''support-groups'' \<and>
         (str_includes name ''eye'' \<or> str_includes name ''dental'' \<or> str_includes name ''skin'')
      then Some (overrideInsights ''Specialty hospital - not relevant for stroke support services'')
      else None)"

text \<open>The blocks of the rule-based path, in the order the source runs them.\<close>

definition applyPatterns :: "Analysis option \<Rightarrow> string \<Rightarrow> Insights \<Rightarrow> Insights" where
  "applyPatterns aiAnalysis facilityType insights =
     (case aiAnalysis of None \<Rightarrow> insights
      | Some an \<Rightarrow>
          (case patterns an of None \<Rightarrow> insights
           | Some p \<Rightarrow>
               (let i1 =
                  (if facilityType = ''hospital'' \<and> truthy (hospital_language_support p)
                   then insights\<lparr>language_support := hospital_language_support p\<rparr>
                   else if facilityType = ''urgent_care'' \<and> truthy (urgent_care_language_support p)
                   then insights\<lparr>language_support := urgent_care_language_support p\<rparr>
                   else if facilityType = ''clinic'' \<and> truthy (clinic_language_support p)
                   then insights\<lparr>language_support := clinic_language_support p\<rparr>
                   else insights)
                in if truthy (general_language_note p)
                   then i1\<lparr>language_note := general_language_note p\<rparr> else i1)))"

definition rated :: "string \<Rightarrow> string \<Rightarrow> string \<Rightarrow> Insights \<Rightarrow> Insights" where
  "rated relevance note match insights =
     insights\<lparr>medical_relevance := Some relevance, specialty_note := Some note,
              service_match := Some match\<rparr>"

definition emergencyRules :: "string list \<Rightarrow> string \<Rightarrow> string \<Rightarrow> Insights \<Rightarrow> Insights" where
  "emergencyRules needTypes name facilityType insights =
     (if arr_includes needTypes ''emergency'' then
        (if str_includes name ''stroke'' \<or> str_includes name ''trauma''
         then rated ''High'' ''Specialized for stroke/trauma care'' ''Excellent'' insights
         else if facilityType = ''hospital'' \<and> \<not> str_includes name ''eye'' \<and>
                 \<not> str_includes name ''dental'' \<and> \<not> str_includes name ''skin''
         then rated ''High'' ''Hospital with emergency department'' ''Excellent'' insights
         else if facilityType = ''urgent_care''
         then rated ''Medium'' ''Urgent care facility, not specialized for stroke emergencies''
                ''Fair'' insights
         else insights)
      else insights)"

definition therapyRules :: "string list \<Rightarrow> string \<Rightarrow> string \<Rightarrow> Insights \<Rightarrow> Insights" where
  "therapyRules needTypes name facilityType insights =
     (if therapyRequested needTypes then
        (let i1 = (if str_includes name ''speech'' \<and> arr_includes needTypes ''speech-therapy''
                   then rated ''High'' ''Specialized speech therapy services'' ''Excellent'' insights
                   else insights);
             i2 = (if (str_includes name ''physical therapy'' \<or> str_includes name ''physiotherapy'') \<and>
                      arr_includes needTypes ''physical-therapy''
                   then rated ''High'' ''Specialized physical therapy services'' ''Excellent'' i1
                   else i1);
             i3 = (if str_includes name ''occupational'' \<and>
                      arr_includes needTypes ''occupational-therapy''
                   then rated ''High'' ''Specialized occupational therapy services'' ''Excellent'' i2
                   else i2);
             i4 = (if (str_includes name ''rehabilitation'' \<or> str_includes name ''rehab'') \<and>
                      arr_includes needTypes ''rehabilitation''
                   then rated ''High'' ''Specialized rehabilitation services'' ''Excellent'' i3
                   else i3)
         in if facilityType = ''hospital'' \<and> \<not> str_includes name ''eye'' \<and>
               \<not> str_includes name ''dental''
            then rated ''High'' ''Hospital with rehabilitation services'' ''Good'' i4
            else i4)
      else insights)"

definition defaultLanguage :: "string \<Rightarrow> Insights \<Rightarrow> Insights" where
  "defaultLanguage languageContext insights =
     (if language_support insights = Some ''Unknown'' \<and> languageContext = ''en''
      then insights\<lparr>language_support := Some ''Confirmed'',
                    language_note := Some ''English is the primary language spoken''\<rparr>
      else insights)"

definition ruleInsights :: "Analysis option \<Rightarrow> string list \<Rightarrow> string \<Rightarrow> Facility \<Rightarrow> Insights" where
  "ruleInsights aiAnalysis needTypes languageContext facility =
     (let name = lowerName facility;
          facilityType = getFacilityType facility;
          insights =
            \<lparr> medical_relevance = Some ''Medium'',
              language_support = Some ''Unknown'',
              language_note = Some ''Language support not assessed'',
              service_match = Some ''Good'',
              specialty_note = Some ''Medical facility'',
              facility_type = Some facilityType \<rparr>
      in defaultLanguage languageContext
           (therapyRules needTypes name facilityType
             (emergencyRules needTypes name facilityType
               (applyPatterns aiAnalysis facilityType insights))))"

definition applyAIInsights ::
  "Analysis option \<Rightarrow> string list \<Rightarrow> string \<Rightarrow> Facility \<Rightarrow> nat \<Rightarrow> Insights" where
  "applyAIInsights aiAnalysis needTypes languageContext facility index =
     (case serviceOverride needTypes (lowerName facility) of
        Some forced \<Rightarrow> forced
      | None \<Rightarrow>
          (case aiEntry aiAnalysis index of
             Some entry \<Rightarrow> entry
           | None \<Rightarrow> ruleInsights aiAnalysis needTypes languageContext facility))"

text \<open>
  One element of the enriched list: the facility's own fields with their defaults, the
  insight fields spread over them, and the likely services.
\<close>

record EnhancedFacility = Insights +
  name :: string
  address :: string
  phone :: string
  website :: string
  rating_out :: "string + real"
  userRatingCount_out :: nat
  distance_out :: "DistanceInfo option"
  types_out :: "string list"
  likely_services :: "string list"

definition orElse :: "string option \<Rightarrow> string \<Rightarrow> string" where
  "orElse v d = (if truthy v then the v else d)"

definition likelyServices :: "string list \<Rightarrow> string list" where
  "likelyServices needTypes =
     (if arr_includes needTypes ''emergency'' then [''Emergency care'', ''Stroke treatment'']
      else if arr_includes needTypes ''rehabilitation''
      then [''Rehabilitation services'', ''Therapy programs'']
      else if arr_includes needTypes ''speech-therapy'' then [''Speech therapy'', ''Language therapy'']
      else if arr_includes needTypes ''physical-therapy''
      then [''Physical therapy'', ''Motor rehabilitation'']
      else if arr_includes needTypes ''occupational-therapy''
      then [''Occupational therapy'', ''Daily living skills'']
      else [''Medical services''])"

definition enhanceOne ::
  "Analysis option \<Rightarrow> string list \<Rightarrow> string \<Rightarrow> Facility \<Rightarrow> nat \<Rightarrow> EnhancedFacility" where
  "enhanceOne aiAnalysis needTypes languageContext facility index =
     (let aiInsights = applyAIInsights aiAnalysis needTypes languageContext facility index in
      \<lparr> medical_relevance = medical_relevance aiInsights,
        language_support = language_support aiInsights,
        language_note = language_note aiInsights,
        service_match = service_match aiInsights,
        specialty_note = specialty_note aiInsights,
        facility_type = facility_type aiInsights,
        name = orElse (displayName facility) ''Unknown'',
        address = orElse (formattedAddress facility) ''Address not available'',
        phone = orElse (internationalPhoneNumber facility) ''Not available'',
        website = orElse (websiteUri facility) ''Not available'',
        rating_out =
          (case rating facility of None \<Rightarrow> Inl ''Not available''
           | Some r \<Rightarrow> if r = 0 then Inl ''Not available'' else Inr r),
        userRatingCount_out = (case userRatingCount facility of None \<Rightarrow> 0 | Some n \<Rightarrow> n),
        distance_out = distance facility,
        types_out = (case types facility of None \<Rightarrow> [] | Some ts \<Rightarrow> ts),
        likely_services = likelyServices needTypes \<rparr>)"

text \<open>
  The \<open>facilities\<close> of the answer of \<open>enhanceWithChatGPT\<close> for a non-empty list;
  \<open>aiAnalysis\<close> is what the call to the generative service left behind.
\<close>

definition enhanceWithChatGPT ::
  "Analysis option \<Rightarrow> Facility list \<Rightarrow> string list \<Rightarrow> string \<Rightarrow> string \<Rightarrow> EnhancedFacility list" where
  "enhanceWithChatGPT aiAnalysis realFacilities needTypes language detectedLocalLanguage =
     (let languageContext = (if language = ''local'' then detectedLocalLanguage else language) in
      map (\<lambda>(facility, index). enhanceOne aiAnalysis needTypes languageContext facility index)
        (zip realFacilities [0 ..< length realFacilities]))"

section \<open>The sort route\<close>

datatype error = InvalidFacilitiesData

definition distanceCompare :: "EnhancedFacility \<Rightarrow> EnhancedFacility \<Rightarrow> jsnum" where
  "distanceCompare a b = distanceDifference (distance_out a) (distance_out b)"

definition relevanceScore :: "string option \<Rightarrow> int" where
  "relevanceScore r =
     (if r = Some ''High'' then 3 else if r = Some ''Medium'' then 2 else 1)"

definition relevanceCompare :: "EnhancedFacility \<Rightarrow> EnhancedFacility \<Rightarrow> jsnum" where
  "relevanceCompare a b =
     (let aScore = relevanceScore (medical_relevance a);
          bScore = relevanceScore (medical_relevance b) in
      if aScore \<noteq> bScore then Num (of_int (bScore - aScore))
      else distanceDifference (distance_out a) (distance_out b))"

text \<open>
  The handler of \<^verbatim>\<open>POST /search/sort\<close>: a body without an array of facilities is
  rejected; any other \<open>sortBy\<close> than the two known ones returns the copy unsorted.
\<close>

definition sortRoute ::
  "((EnhancedFacility \<Rightarrow> EnhancedFacility \<Rightarrow> jsnum) \<Rightarrow> EnhancedFacility list \<Rightarrow> EnhancedFacility list) \<Rightarrow>
   EnhancedFacility list option \<Rightarrow> string \<Rightarrow> error + EnhancedFacility list" where
  "sortRoute arraySort body sortBy =
     (case body of None \<Rightarrow> Inl InvalidFacilitiesData
      | Some fs \<Rightarrow>
          Inr (if sortBy = ''distance'' then arraySort distanceCompare fs
               else if sortBy = ''relevance'' then arraySort relevanceCompare fs
               else fs))"

section \<open>Notions used to state the properties\<close>





text \<open>
  A list is in run order for a comparator when no element compares below its
  predecessor: the engine then takes the whole list for one ascending run.
\<close>

definition inRunOrder :: "('a \<Rightarrow> 'a \<Rightarrow> jsnum) \<Rightarrow> 'a list \<Rightarrow> bool" where
  "inRunOrder cmp xs = successively (\<lambda>previous current. \<not> js_lt0 (cmp current previous)) xs"

text \<open>
  The first element of every class of \<open>same\<close> that has no member in \<open>seen\<close>, in
  input order. Both deduplication loops compute it, for their own notion of sameness.
\<close>

fun firsts :: "('a \<Rightarrow> 'a \<Rightarrow> bool) \<Rightarrow> 'a list \<Rightarrow> 'a list \<Rightarrow> 'a list" where
  "firsts same seen [] = []"
| "firsts same seen (x # xs) =
     (if list_ex (\<lambda>s. same s x) seen then firsts same seen xs
      else x # firsts same (seen @ [x]) xs)"

definition sameKey :: "Place \<Rightarrow> Place \<Rightarrow> bool" where
  "sameKey a b = (placeId a = placeId b)"








section \<open>Example values\<close>

definition examplePlace :: "string \<Rightarrow> string \<Rightarrow> LatLng option \<Rightarrow> Place" where
  "examplePlace n a loc =
     \<lparr> displayName = Some n, formattedAddress = Some a, internationalPhoneNumber = None,
       websiteUri = None, rating = None, userRatingCount = None, types = None,
       businessStatus = None, location = loc \<rparr>"

definition exampleFacility :: "string \<Rightarrow> DistanceInfo option \<Rightarrow> Facility" where
  "exampleFacility n d =
     \<lparr> displayName = Some n, formattedAddress = None, internationalPhoneNumber = None,
       websiteUri = None, rating = None, userRatingCount = None, types = None,
       businessStatus = None, location = None, distance = d \<rparr>"

definition exampleEntry :: "string \<Rightarrow> Insights" where
  "exampleEntry relevance =
     \<lparr> medical_relevance = Some relevance, language_support = Some ''Likely'',
       language_note = Some ''Interpreters on call'', service_match = Some ''Excellent'',
       specialty_note = Some ''General hospital'', facility_type = Some ''hospital'' \<rparr>"

definition exampleCoords :: Coords where
  "exampleCoords = \<lparr>lat = 0, lng = 0, country = ''US''\<rparr>"


definition exampleCalc :: distance_function where
  "exampleCalc lat1 lon1 lat2 lon2 u =
     (if lon2 = 180 then NaN
      else Num ((if u = Miles then 69 else 111) * \<bar>lat2 - lat1\<bar>))"

definition km_miles :: "real \<Rightarrow> real \<Rightarrow> DistanceInfo option" where
  "km_miles k m = Some \<lparr>km = Num k, miles = Num m\<rparr>"

definition exampleNear :: Place where
  "exampleNear = examplePlace ''City Hospital'' ''1 Main St'' (Some \<lparr>latitude = 1 / 4, longitude = 0\<rparr>)"

definition exampleUnlocated :: Place where
  "exampleUnlocated = examplePlace ''General Hospital'' ''2 Main St'' None"

definition exampleAntipodal :: Place where
  "exampleAntipodal = examplePlace ''Island Hospital'' ''3 Main St'' (Some \<lparr>latitude = 0, longitude = 180\<rparr>)"

definition exampleRemote :: Place where
  "exampleRemote = examplePlace ''Remote Hospital'' ''4 Main St'' (Some \<lparr>latitude = 5, longitude = 0\<rparr>)"


section \<open>Facts about strings\<close>

lemma toLowerCase_veterinary: "toLowerCase ''veterinary'' = ''veterinary''"
  by code_simp

lemma str_includes_lower:
  "str_includes s t \<Longrightarrow> str_includes (toLowerCase s) (toLowerCase t)"
  unfolding str_includes_def toLowerCase_def by (rule map_mono_sublist)


section \<open>The relevance filter\<close>

lemma keepFacility_not_veterinary:
  assumes "keepFacility needTypes facility"
  shows "\<not> str_includes (lowerName facility) ''pet'' \<and>
         \<not> str_includes (lowerName facility) ''veterinary'' \<and>
         \<not> str_includes (lowerName facility) ''animal'' \<and>
         \<not> str_includes (typesStr facility) ''veterinary'' \<and>
         \<not> str_includes (lowerName facility) ''vet ''"
  using assms unfolding keepFacility_def Let_def by (auto split: if_splits)

lemma keep_city_hospital:
  "keepFacility [''emergency''] (examplePlace ''City Hospital'' ''1 Main St'' None)"
  by code_simp

lemma drop_veterinary_hospital:
  "\<not> keepFacility [''emergency''] (examplePlace ''Veterinary Hospital'' ''2 Main St'' None)"
  by code_simp

text \<open>
  C6. Whatever the requested need types, no place whose lower-cased name contains
  "veterinary", "pet", "animal" or "vet ", or whose joined category tags contain
  "veterinary", is in the output of the relevance filter; in particular no place whose
  name as given contains "veterinary". The test comes first in the filter, before any
  inclusion rule and before the major-medical-facility rule.
\<close>

theorem veterinary_excluded:
  assumes "facility \<in> set (filterFacilitiesByServiceType places needTypes)"
  shows "\<not> str_includes (lowerName facility) ''veterinary'' \<and>
         \<not> str_includes (lowerName facility) ''pet'' \<and>
         \<not> str_includes (lowerName facility) ''animal'' \<and>
         \<not> str_includes (lowerName facility) ''vet '' \<and>
         \<not> str_includes (typesStr facility) ''veterinary'' \<and>
         (\<forall>n. displayName facility = Some n \<longrightarrow> \<not> str_includes n ''veterinary'')"
proof -
  from assms have k: "keepFacility needTypes facility"
    by (simp add: filterFacilitiesByServiceType_def)
  note v = keepFacility_not_veterinary [OF k]
  have "\<not> str_includes n ''veterinary''" if "displayName facility = Some n" for n
  proof
    assume "str_includes n ''veterinary''"
    then have "str_includes (toLowerCase n) ''veterinary''"
      using str_includes_lower [of n "''veterinary''"] by (simp add: toLowerCase_veterinary)
    with that v show False by (simp add: lowerName_def)
  qed
  with v show ?thesis by blast
qed

theorem veterinary_excluded_witness:
  "filterFacilitiesByServiceType
     [examplePlace ''Veterinary Hospital'' ''2 Main St'' None,
      examplePlace ''City Hospital'' ''1 Main St'' None] [''emergency'']
     = [examplePlace ''City Hospital'' ''1 Main St'' None] \<and>
   \<not> str_includes (lowerName (examplePlace ''City Hospital'' ''1 Main St'' None)) ''veterinary'' \<and>
   \<not> str_includes ''City Hospital'' ''veterinary''"
proof -
  let ?v = "examplePlace ''Veterinary Hospital'' ''2 Main St'' None"
  let ?c = "examplePlace ''City Hospital'' ''1 Main St'' None"
  have out: "filterFacilitiesByServiceType [?v, ?c] [''emergency''] = [?c]"
    by (simp add: filterFacilitiesByServiceType_def keep_city_hospital drop_veterinary_hospital)
  then have "?c \<in> set (filterFacilitiesByServiceType [?v, ?c] [''emergency''])" by simp
  moreover have "displayName ?c = Some ''City Hospital''" by (simp add: examplePlace_def)
  ultimately show ?thesis using veterinary_excluded [of ?c "[?v, ?c]" "[''emergency'']"] out by blast
qed

text \<open>
  C10. The relevance filter returns a subsequence of its input: the kept places are
  input places, unchanged and in their input order, and nothing else is in the output.
\<close>

theorem filter_is_subsequence:
  "subseq (filterFacilitiesByServiceType places needTypes) places \<and>
   set (filterFacilitiesByServiceType places needTypes) \<subseteq> set places \<and>
   filterFacilitiesByServiceType places needTypes = filter (keepFacility needTypes) places"
  by (simp add: filterFacilitiesByServiceType_def)

section \<open>Enrichment\<close>

lemma serviceOverride_emergency:
  assumes "arr_includes needTypes ''emergency''"
    and "str_includes n ''eye'' \<or> str_includes n ''dental'' \<or>
         str_includes n ''skin'' \<or> str_includes n ''ent''"
  shows "serviceOverride needTypes n =
           Some (overrideInsights ''Specialty hospital - not equipped for stroke emergencies'')"
  using assms by (auto simp: serviceOverride_def)

lemma nepal_eye: "str_includes (toLowerCase ''Nepal Eye Hospital'') ''eye''"
  by code_simp

text \<open>
  C7. When emergency is among the requested need types, a facility named
  "Nepal Eye Hospital", and any facility whose lower-cased name contains "eye",
  "dental", "skin" or "ent", has medical relevance "Low" in the enriched list, whatever
  the generative service answered and also when it failed (\<open>aiAnalysis = None\<close>).
\<close>

theorem emergency_override_low:
  assumes "arr_includes needTypes ''emergency''"
    and "index < length realFacilities"
    and "displayName (realFacilities ! index) = Some ''Nepal Eye Hospital'' \<or>
         str_includes (lowerName (realFacilities ! index)) ''eye'' \<or>
         str_includes (lowerName (realFacilities ! index)) ''dental'' \<or>
         str_includes (lowerName (realFacilities ! index)) ''skin'' \<or>
         str_includes (lowerName (realFacilities ! index)) ''ent''"
  shows "medical_relevance
           (enhanceWithChatGPT aiAnalysis realFacilities needTypes language detectedLocalLanguage ! index)
         = Some ''Low''"
proof -
  let ?f = "realFacilities ! index"
  from assms(3) have "str_includes (lowerName ?f) ''eye'' \<or> str_includes (lowerName ?f) ''dental'' \<or>
      str_includes (lowerName ?f) ''skin'' \<or> str_includes (lowerName ?f) ''ent''"
    using nepal_eye by (auto simp: lowerName_def)
  from serviceOverride_emergency [OF assms(1) this]
  have "medical_relevance (applyAIInsights aiAnalysis needTypes lc ?f index) = Some ''Low''" for lc
    by (simp add: applyAIInsights_def overrideInsights_def)
  with assms(2) show ?thesis
    by (simp add: enhanceWithChatGPT_def enhanceOne_def Let_def)
qed

theorem emergency_override_low_witness:
  "medical_relevance
     (enhanceWithChatGPT (Some \<lparr>facilities = Some [Some (exampleEntry ''High'')], patterns = None\<rparr>)
        [exampleFacility ''Nepal Eye Hospital'' None] [''emergency''] ''en'' ''en'' ! 0) = Some ''Low'' \<and>
   medical_relevance
     (enhanceWithChatGPT None
        [exampleFacility ''Nepal Eye Hospital'' None] [''emergency''] ''en'' ''en'' ! 0) = Some ''Low''"
proof -
  have a: "arr_includes [''emergency''] ''emergency''" by (simp add: arr_includes_def)
  have b: "(0::nat) < length [exampleFacility ''Nepal Eye Hospital'' None]" by simp
  have c: "displayName ([exampleFacility ''Nepal Eye Hospital'' None] ! 0) = Some ''Nepal Eye Hospital'' \<or>
      str_includes (lowerName ([exampleFacility ''Nepal Eye Hospital'' None] ! 0)) ''eye'' \<or>
      str_includes (lowerName ([exampleFacility ''Nepal Eye Hospital'' None] ! 0)) ''dental'' \<or>
      str_includes (lowerName ([exampleFacility ''Nepal Eye Hospital'' None] ! 0)) ''skin'' \<or>
      str_includes (lowerName ([exampleFacility ''Nepal Eye Hospital'' None] ! 0)) ''ent''"
    by (simp add: exampleFacility_def)
  show ?thesis
    using emergency_override_low [OF a b c] by blast
qed

section \<open>Deduplication\<close>

lemma uniqueLoop_firsts:
  "uniqueLoop (map placeId seen) xs = firsts sameKey (rev seen) xs"
proof (induction xs arbitrary: seen)
  case Nil
  then show ?case by simp
next
  case (Cons x xs)
  have "(placeId x \<in> placeId ` set seen) = list_ex (\<lambda>s. sameKey s x) (rev seen)"
  proof -
    have "(placeId x \<in> placeId ` set seen) = (\<exists>s \<in> set seen. placeId x = placeId s)"
      by (simp add: image_iff)
    also have "\<dots> = (\<exists>s \<in> set seen. placeId s = placeId x)" by metis
    finally show ?thesis by (simp add: list_ex_iff sameKey_def)
  qed
  moreover have "uniqueLoop (placeId x # map placeId seen) xs = firsts sameKey (rev seen @ [x]) xs"
    using Cons.IH [of "x # seen"] by simp
  ultimately show ?case using Cons.IH [of seen] by simp
qed

lemma uniqueFacilities_firsts: "uniqueFacilities xs = firsts sameKey [] xs"
  using uniqueLoop_firsts [of "[]" xs] by (simp add: uniqueFacilities_def)

lemma findIndex_append:
  "findIndex P (pre @ x # xs) = Some (length pre) \<longleftrightarrow> \<not> list_ex P pre \<and> P x"
proof (induction pre)
  case Nil
  then show ?case by (auto split: option.splits)
next
  case (Cons p pre)
  then show ?case by (auto split: option.splits)
qed

lemma firsts_cong_seen:
  assumes "\<And>y. list_ex (\<lambda>s. same s y) seen1 = list_ex (\<lambda>s. same s y) seen2"
  shows "firsts same seen1 xs = firsts same seen2 xs"
  using assms
proof (induction xs arbitrary: seen1 seen2)
  case Nil
  then show ?case by simp
next
  case (Cons x xs)
  have "firsts same (seen1 @ [x]) xs = firsts same (seen2 @ [x]) xs"
    by (rule Cons.IH) (simp add: Cons.prems)
  moreover have "firsts same seen1 xs = firsts same seen2 xs"
    by (rule Cons.IH) (rule Cons.prems)
  ultimately show ?case by (simp add: Cons.prems)
qed

lemma firsts_seen_duplicate:
  assumes trans: "\<And>a b c. same a b \<Longrightarrow> same b c \<Longrightarrow> same a c"
    and "list_ex (\<lambda>s. same s x) seen"
  shows "firsts same (seen @ [x]) xs = firsts same seen xs"
proof (rule firsts_cong_seen)
  fix y
  from assms(2) obtain s where s: "s \<in> set seen" "same s x" by (auto simp: list_ex_iff)
  have "list_ex (\<lambda>s. same s y) seen" if "same x y"
  proof -
    from s that have "same s y" by (blast intro: trans)
    with s show ?thesis by (auto simp: list_ex_iff)
  qed
  then show "list_ex (\<lambda>s. same s y) (seen @ [x]) = list_ex (\<lambda>s. same s y) seen"
    by auto
qed

lemma byIndex_firsts_aux:
  assumes refl: "\<And>x. same x x"
    and trans: "\<And>a b c. same a b \<Longrightarrow> same b c \<Longrightarrow> same a c"
  shows "map fst (filter (\<lambda>(f, i). findIndex (\<lambda>g. same g f) (pre @ xs) = Some i)
           (zip xs [length pre ..< length pre + length xs]))
         = firsts same pre xs"
proof (induction xs arbitrary: pre)
  case Nil
  then show ?case by simp
next
  case (Cons x xs)
  have zipc: "zip (x # xs) [length pre ..< length pre + length (x # xs)]
      = (x, length pre) # zip xs [length (pre @ [x]) ..< length (pre @ [x]) + length xs]"
    by (simp add: upt_conv_Cons del: upt_Suc)
  have here: "findIndex (\<lambda>g. same g x) (pre @ x # xs) = Some (length pre)
      \<longleftrightarrow> \<not> list_ex (\<lambda>s. same s x) pre"
    by (simp add: findIndex_append refl)
  have rest: "map fst (filter (\<lambda>(f, i). findIndex (\<lambda>g. same g f) (pre @ x # xs) = Some i)
           (zip xs [length (pre @ [x]) ..< length (pre @ [x]) + length xs]))
         = firsts same (pre @ [x]) xs"
    using Cons.IH [of "pre @ [x]"] by simp
  show ?case
  proof (cases "list_ex (\<lambda>s. same s x) pre")
    case True
    with firsts_seen_duplicate [of same x pre xs] trans
    have "firsts same (pre @ [x]) xs = firsts same pre xs" by blast
    with True here rest show ?thesis unfolding zipc by simp
  next
    case False
    with here rest show ?thesis unfolding zipc by simp
  qed
qed

lemma uniqueFacilitiesByIndex_firsts: "uniqueFacilitiesByIndex xs = firsts samePlace [] xs"
proof -
  have "map fst (filter (\<lambda>(f, i). findIndex (\<lambda>g. samePlace g f) ([] @ xs) = Some i)
           (zip xs [length ([] :: Place list) ..< length ([] :: Place list) + length xs]))
         = firsts samePlace [] xs"
    by (rule byIndex_firsts_aux) (auto simp: samePlace_def)
  then show ?thesis by (simp add: uniqueFacilitiesByIndex_def)
qed

lemma subseq_firsts: "subseq (firsts same seen xs) xs"
  by (induction xs arbitrary: seen) auto

lemma firsts_unseen: "y \<in> set (firsts same seen xs) \<Longrightarrow> \<not> list_ex (\<lambda>s. same s y) seen"
proof (induction xs arbitrary: seen)
  case Nil
  then show ?case by simp
next
  case (Cons x xs)
  then show ?case by (fastforce simp: list_ex_iff split: if_splits)
qed

lemma count_firsts:
  assumes sym: "\<And>a b. same a b \<Longrightarrow> same b a"
    and trans: "\<And>a b c. same a b \<Longrightarrow> same b c \<Longrightarrow> same a c"
    and refl: "\<And>a. same a a"
  shows "length (filter (\<lambda>y. same y x) (firsts same seen xs))
         = (if list_ex (\<lambda>s. same s x) seen \<or> \<not> list_ex (\<lambda>z. same z x) xs then 0 else 1)"
proof (induction xs arbitrary: seen)
  case Nil
  then show ?case by simp
next
  case (Cons z zs)
  show ?case
  proof (cases "list_ex (\<lambda>s. same s z) seen")
    case True
    have "list_ex (\<lambda>s. same s x) seen" if "same z x"
    proof -
      from True obtain s where s: "s \<in> set seen" "same s z" by (auto simp: list_ex_iff)
      with that have "same s x" by (blast intro: trans)
      with s show ?thesis by (auto simp: list_ex_iff)
    qed
    with True Cons.IH [of seen] show ?thesis by auto
  next
    case False
    show ?thesis
    proof (cases "same z x")
      case True
      have "\<not> list_ex (\<lambda>s. same s x) seen"
      proof
        assume "list_ex (\<lambda>s. same s x) seen"
        then obtain s where s: "s \<in> set seen" "same s x" by (auto simp: list_ex_iff)
        from True have "same x z" by (rule sym)
        with s have "same s z" by (blast intro: trans)
        with s False show False by (auto simp: list_ex_iff)
      qed
      with False True Cons.IH [of "seen @ [z]"] show ?thesis by simp
    next
      case False2: False
      with False Cons.IH [of "seen @ [z]"] show ?thesis by simp
    qed
  qed
qed

lemma find_firsts:
  assumes trans: "\<And>a b c. same a b \<Longrightarrow> same b c \<Longrightarrow> same a c"
    and refl: "\<And>a. same a a"
    and "y \<in> set (firsts same seen xs)"
  shows "find (\<lambda>z. same z y) xs = Some y"
  using assms(3)
proof (induction xs arbitrary: seen)
  case Nil
  then show ?case by simp
next
  case (Cons x xs)
  show ?case
  proof (cases "list_ex (\<lambda>s. same s x) seen")
    case True
    with Cons.prems have y: "y \<in> set (firsts same seen xs)" by simp
    from True obtain s where s: "s \<in> set seen" "same s x" by (auto simp: list_ex_iff)
    have "\<not> same x y"
    proof
      assume "same x y"
      with s have "same s y" by (blast intro: trans)
      with s firsts_unseen [OF y] show False by (auto simp: list_ex_iff)
    qed
    with Cons.IH [OF y] show ?thesis by simp
  next
    case False
    show ?thesis
    proof (cases "y = x")
      case True
      then show ?thesis by (simp add: refl)
    next
      case ne: False
      with False Cons.prems have y: "y \<in> set (firsts same (seen @ [x]) xs)" by simp
      from firsts_unseen [OF y] have "\<not> same x y" by (simp add: list_ex_iff)
      with Cons.IH [OF y] show ?thesis by simp
    qed
  qed
qed

lemma length_filter_mono:
  "(\<And>y. P y \<Longrightarrow> Q y) \<Longrightarrow> length (filter P xs) \<le> length (filter Q xs)"
  by (induction xs) auto

lemma samePlace_placeId: "samePlace a b \<Longrightarrow> placeId a = placeId b"
  by (simp add: samePlace_def placeId_def)

lemma example_dedup:
  "uniqueFacilities
     [examplePlace ''City Hospital'' ''1 Main St'' None,
      examplePlace ''City Hospital'' ''1 Main St'' None,
      examplePlace ''General Hospital'' ''2 Main St'' None]
   = [examplePlace ''City Hospital'' ''1 Main St'' None,
      examplePlace ''General Hospital'' ''2 Main St'' None]"
  by code_simp

text \<open>
  C1, as the code has it. Both deduplication loops return a subsequence of the collected
  places that holds the first-seen place of every identity, where identity is exact and
  case-sensitive. In the loop with the set of keys every key \<open>name-address\<close> of the
  input is the key of exactly one kept place, which is the first input place with that
  key, and no two kept places have the same name and address. In the loop of the oldest
  copy every pair of name and address of the input is the pair of exactly one kept
  place, which is the first input place with that pair.
\<close>

theorem dedup_exact_identity:
  "subseq (uniqueFacilities xs) xs \<and>
   (\<forall>x \<in> set xs. length (filter (\<lambda>y. placeId y = placeId x) (uniqueFacilities xs)) = 1) \<and>
   (\<forall>y \<in> set (uniqueFacilities xs). find (\<lambda>z. placeId z = placeId y) xs = Some y) \<and>
   (\<forall>x \<in> set xs. length (filter (\<lambda>y. samePlace y x) (uniqueFacilities xs)) \<le> 1) \<and>
   subseq (uniqueFacilitiesByIndex xs) xs \<and>
   (\<forall>x \<in> set xs. length (filter (\<lambda>y. samePlace y x) (uniqueFacilitiesByIndex xs)) = 1) \<and>
   (\<forall>y \<in> set (uniqueFacilitiesByIndex xs). find (\<lambda>z. samePlace z y) xs = Some y)"
proof (intro conjI ballI)
  show "subseq (uniqueFacilities xs) xs"
    by (simp add: uniqueFacilities_firsts subseq_firsts)
  show "subseq (uniqueFacilitiesByIndex xs) xs"
    by (simp add: uniqueFacilitiesByIndex_firsts subseq_firsts)
next
  fix x assume x: "x \<in> set xs"
  have "length (filter (\<lambda>y. sameKey y x) (firsts sameKey [] xs))
      = (if list_ex (\<lambda>s. sameKey s x) [] \<or> \<not> list_ex (\<lambda>z. sameKey z x) xs then 0 else 1)"
    by (rule count_firsts) (auto simp: sameKey_def)
  moreover from x have "list_ex (\<lambda>z. sameKey z x) xs"
    by (auto simp: list_ex_iff sameKey_def)
  ultimately show one: "length (filter (\<lambda>y. placeId y = placeId x) (uniqueFacilities xs)) = 1"
    by (simp add: uniqueFacilities_firsts sameKey_def)
  have "length (filter (\<lambda>y. samePlace y x) (uniqueFacilities xs))
      \<le> length (filter (\<lambda>y. placeId y = placeId x) (uniqueFacilities xs))"
    by (rule length_filter_mono) (rule samePlace_placeId)
  with one show "length (filter (\<lambda>y. samePlace y x) (uniqueFacilities xs)) \<le> 1" by simp
  have "length (filter (\<lambda>y. samePlace y x) (firsts samePlace [] xs))
      = (if list_ex (\<lambda>s. samePlace s x) [] \<or> \<not> list_ex (\<lambda>z. samePlace z x) xs then 0 else 1)"
    by (rule count_firsts) (auto simp: samePlace_def)
  moreover from x have "list_ex (\<lambda>z. samePlace z x) xs"
    by (auto simp: list_ex_iff samePlace_def)
  ultimately show "length (filter (\<lambda>y. samePlace y x) (uniqueFacilitiesByIndex xs)) = 1"
    by (simp add: uniqueFacilitiesByIndex_firsts)
next
  fix y assume "y \<in> set (uniqueFacilities xs)"
  then have y: "y \<in> set (firsts sameKey [] xs)" by (simp add: uniqueFacilities_firsts)
  have "find (\<lambda>z. sameKey z y) xs = Some y"
    by (rule find_firsts [OF _ _ y]) (auto simp: sameKey_def)
  then show "find (\<lambda>z. placeId z = placeId y) xs = Some y" by (simp add: sameKey_def)
next
  fix y assume "y \<in> set (uniqueFacilitiesByIndex xs)"
  then have y: "y \<in> set (firsts samePlace [] xs)" by (simp add: uniqueFacilitiesByIndex_firsts)
  show "find (\<lambda>z. samePlace z y) xs = Some y"
    by (rule find_firsts [OF _ _ y]) (auto simp: samePlace_def)
qed

theorem dedup_exact_identity_witness:
  "length (filter (\<lambda>y. placeId y = placeId (examplePlace ''City Hospital'' ''1 Main St'' None))
     (uniqueFacilities
       [examplePlace ''City Hospital'' ''1 Main St'' None,
        examplePlace ''City Hospital'' ''1 Main St'' None,
        examplePlace ''General Hospital'' ''2 Main St'' None])) = 1 \<and>
   find (\<lambda>z. placeId z = placeId (examplePlace ''General Hospital'' ''2 Main St'' None))
       [examplePlace ''City Hospital'' ''1 Main St'' None,
        examplePlace ''City Hospital'' ''1 Main St'' None,
        examplePlace ''General Hospital'' ''2 Main St'' None]
     = Some (examplePlace ''General Hospital'' ''2 Main St'' None) \<and>
   length (filter (\<lambda>y. samePlace y (examplePlace ''City Hospital'' ''1 Main St'' None))
     (uniqueFacilitiesByIndex
       [examplePlace ''City Hospital'' ''1 Main St'' None,
        examplePlace ''City Hospital'' ''1 Main St'' None,
        examplePlace ''General Hospital'' ''2 Main St'' None])) = 1"
proof -
  let ?a = "examplePlace ''City Hospital'' ''1 Main St'' None"
  let ?b = "examplePlace ''General Hospital'' ''2 Main St'' None"
  have a: "?a \<in> set [?a, ?a, ?b]" by simp
  have b: "?b \<in> set (uniqueFacilities [?a, ?a, ?b])" by (simp add: example_dedup)
  from dedup_exact_identity [of "[?a, ?a, ?b]"] a b show ?thesis by blast
qed

text \<open>
  As the specification states it, the property fails: two places whose names and addresses differ only in letter
  case are both kept, by either loop.
\<close>

theorem case_variants_not_merged:
  "uniqueFacilities
     [examplePlace ''City Hospital'' ''1 Main St'' None,
      examplePlace ''CITY HOSPITAL'' ''1 MAIN ST'' None]
   = [examplePlace ''City Hospital'' ''1 Main St'' None,
      examplePlace ''CITY HOSPITAL'' ''1 MAIN ST'' None] \<and>
   uniqueFacilitiesByIndex
     [examplePlace ''City Hospital'' ''1 Main St'' None,
      examplePlace ''CITY HOSPITAL'' ''1 MAIN ST'' None]
   = [examplePlace ''City Hospital'' ''1 Main St'' None,
      examplePlace ''CITY HOSPITAL'' ''1 MAIN ST'' None] \<and>
   toLowerCase ''City Hospital'' = toLowerCase ''CITY HOSPITAL'' \<and>
   toLowerCase ''1 Main St'' = toLowerCase ''1 MAIN ST''"
  by code_simp

section \<open>Where the insight fields come from\<close>















section \<open>The runtime sort\<close>

lemma mset_insertSorted: "mset (insertSorted cmp x xs) = add_mset x (mset xs)"
  by (induction xs) auto

lemma mset_insertionSort: "mset (insertionSort cmp xs) = mset xs"
  by (induction xs) (auto simp: mset_insertSorted)

lemma permuting_insertionSort: "permuting insertionSort"
  by (simp add: permuting_def mset_insertionSort)




lemma permuting_set: "permuting arraySort \<Longrightarrow> set (arraySort cmp xs) = set xs"
  unfolding permuting_def by (metis set_mset_mset)

text \<open>
  The engine's algorithm for short arrays leaves its result in run order whenever the
  comparator never puts two elements each below the other, and returns a list in run
  order unchanged. So a second sort of such an array with the same comparator changes
  nothing, also when the comparator is not a consistent ordering.
\<close>

lemma findSlot_bounds:
  assumes "left \<le> right"
  shows "left \<le> findSlot cmp pivot work left right \<and> findSlot cmp pivot work left right \<le> right \<and>
     (findSlot cmp pivot work left right = left \<or>
        \<not> js_lt0 (cmp pivot (work ! (findSlot cmp pivot work left right - 1)))) \<and>
     (findSlot cmp pivot work left right = right \<or>
        js_lt0 (cmp pivot (work ! findSlot cmp pivot work left right)))"
  using assms
proof (induction cmp pivot work left right rule: findSlot.induct)
  case (1 cmp pivot work left right)
  let ?mid = "left + (right - left) div 2"
  show ?case
  proof (cases "left < right")
    case False
    with "1.prems" show ?thesis by (simp add: findSlot.simps)
  next
    case True
    then have mid: "left \<le> ?mid" "?mid < right" by auto
    show ?thesis
    proof (cases "js_lt0 (cmp pivot (work ! ?mid))")
      case lt: True
      have eq: "findSlot cmp pivot work left right = findSlot cmp pivot work left ?mid"
        using True lt by (subst findSlot.simps) simp
      from "1.IH"(1) [OF True lt mid(1)] lt mid show ?thesis
        unfolding eq by auto
    next
      case ge: False
      have eq: "findSlot cmp pivot work left right = findSlot cmp pivot work (?mid + 1) right"
        using True ge by (subst findSlot.simps) simp
      from mid have "?mid + 1 \<le> right" by simp
      from "1.IH"(2) [OF True ge this] ge mid show ?thesis
        unfolding eq by auto
    qed
  qed
qed

lemma successively_take: "successively P xs \<Longrightarrow> successively P (take n xs)"
  by (metis append_take_drop_id successively_append_iff)

lemma successively_drop: "successively P xs \<Longrightarrow> successively P (drop n xs)"
  by (metis append_take_drop_id successively_append_iff)

lemma inRunOrder_insertPivot:
  assumes anti: "\<And>a b. js_lt0 (cmp a b) \<Longrightarrow> \<not> js_lt0 (cmp b a)"
    and "inRunOrder cmp work"
  shows "inRunOrder cmp (insertPivot cmp work pivot)"
proof -
  let ?k = "findSlot cmp pivot work 0 (length work)"
  let ?P = "\<lambda>previous current. \<not> js_lt0 (cmp current previous)"
  from findSlot_bounds [of 0 "length work" cmp pivot work]
  have k: "?k \<le> length work"
    and before: "?k = 0 \<or> \<not> js_lt0 (cmp pivot (work ! (?k - 1)))"
    and after: "?k = length work \<or> js_lt0 (cmp pivot (work ! ?k))"
    by auto
  from assms(2) have t: "successively ?P (take ?k work)" and d: "successively ?P (drop ?k work)"
    by (auto simp: inRunOrder_def intro: successively_take successively_drop)
  have right: "successively ?P (pivot # drop ?k work)"
  proof (cases "drop ?k work")
    case Nil
    then show ?thesis by simp
  next
    case (Cons y ys)
    then have "drop ?k work \<noteq> []" by simp
    then have less: "?k < length work" by simp
    then have "hd (drop ?k work) = work ! ?k" by (rule hd_drop_conv_nth)
    with Cons have "y = work ! ?k" by simp
    note \<open>?k < length work\<close> this
    with after anti have "\<not> js_lt0 (cmp y pivot)" by auto
    with d Cons show ?thesis by simp
  qed
  have "successively ?P (take ?k work @ pivot # drop ?k work)"
  proof (cases "take ?k work = []")
    case True
    from right show ?thesis by (simp only: True append_Nil)
  next
    case False
    then have "0 < ?k" by auto
    with k False have "last (take ?k work) = work ! (?k - 1)"
      by (simp add: last_conv_nth min_absorb2 del: take_eq_Nil)
    with before \<open>0 < ?k\<close> have "?P (last (take ?k work)) pivot" by auto
    with t right False show ?thesis by (simp add: successively_append_iff)
  qed
  then show ?thesis by (simp add: insertPivot_def inRunOrder_def Let_def)
qed

lemma inRunOrder_binaryInsertionSort:
  assumes "\<And>a b. js_lt0 (cmp a b) \<Longrightarrow> \<not> js_lt0 (cmp b a)"
    and "inRunOrder cmp run"
  shows "inRunOrder cmp (binaryInsertionSort cmp run rest)"
  using assms(2) unfolding binaryInsertionSort_def
proof (induction rest arbitrary: run)
  case Nil
  then show ?case by simp
next
  case (Cons pivot rest)
  from assms(1) Cons.prems have "inRunOrder cmp (insertPivot cmp run pivot)"
    by (rule inRunOrder_insertPivot)
  then have "inRunOrder cmp (foldl (insertPivot cmp) (insertPivot cmp run pivot) rest)"
    by (rule Cons.IH)
  then show ?case by simp
qed

lemma runRest_prefix:
  "successively (\<lambda>previous current. js_lt0 (cmp current previous) = isDescending)
     (previous # take (runRest isDescending cmp previous rest) rest)"
  by (induction rest arbitrary: previous) auto

lemma inRunOrder_run:
  assumes anti: "\<And>a b. js_lt0 (cmp a b) \<Longrightarrow> \<not> js_lt0 (cmp b a)"
  shows "inRunOrder cmp (fst (countAndMakeRun cmp xs))"
proof (cases "(cmp, xs)" rule: countAndMakeRun.cases [case_names nil one more])
  case (nil c)
  then show ?thesis by (simp add: inRunOrder_def)
next
  case (one c x)
  then show ?thesis by (simp add: inRunOrder_def)
next
  case (more c hi lo rest)
  let ?d = "js_lt0 (cmp lo hi)"
  let ?run = "hi # lo # take (runRest ?d cmp lo rest) rest"
  have run: "successively (\<lambda>previous current. js_lt0 (cmp current previous) = ?d) ?run"
    using runRest_prefix [of cmp ?d lo rest] by simp
  show ?thesis
  proof (cases ?d)
    case False
    with run have "successively (\<lambda>previous current. \<not> js_lt0 (cmp current previous)) ?run"
      by simp
    with more False show ?thesis by (simp add: inRunOrder_def Let_def)
  next
    case True
    with run have "successively (\<lambda>previous current. js_lt0 (cmp current previous)) ?run" by simp
    then have "successively (\<lambda>previous current. js_lt0 (cmp previous current)) (rev ?run)"
      by (simp only: successively_rev)
    then have "successively (\<lambda>previous current. \<not> js_lt0 (cmp current previous)) (rev ?run)"
      by (rule successively_mono) (auto dest: anti)
    with more True show ?thesis by (simp add: inRunOrder_def Let_def)
  qed
qed

lemma runRest_whole:
  "successively (\<lambda>previous current. \<not> js_lt0 (cmp current previous)) (previous # rest) \<Longrightarrow>
   runRest False cmp previous rest = length rest"
  by (induction rest arbitrary: previous) auto

lemma countAndMakeRun_inRunOrder:
  "inRunOrder cmp xs \<Longrightarrow> countAndMakeRun cmp xs = (xs, [])"
proof (cases "(cmp, xs)" rule: countAndMakeRun.cases [case_names nil one more])
  case (more c hi lo rest)
  assume "inRunOrder cmp xs"
  with more have a: "\<not> js_lt0 (cmp lo hi)"
    and r: "successively (\<lambda>previous current. \<not> js_lt0 (cmp current previous)) (lo # rest)"
    by (simp_all add: inRunOrder_def)
  from runRest_whole [OF r] a more show ?thesis by (simp add: Let_def)
qed simp_all

lemma length_insertPivot: "length (insertPivot cmp work pivot) = Suc (length work)"
  using findSlot_bounds [of 0 "length work" cmp pivot work]
  by (simp add: insertPivot_def Let_def)

lemma length_binaryInsertionSort:
  "length (binaryInsertionSort cmp run rest) = length run + length rest"
  unfolding binaryInsertionSort_def
  by (induction rest arbitrary: run) (simp_all add: length_insertPivot)

lemma runRest_le: "runRest isDescending cmp previous rest \<le> length rest"
  by (induction rest arbitrary: previous) auto

lemma length_countAndMakeRun:
  "length (fst (countAndMakeRun cmp xs)) + length (snd (countAndMakeRun cmp xs)) = length xs"
  using runRest_le [of _ cmp]
  by (cases "(cmp, xs)" rule: countAndMakeRun.cases) (simp_all add: Let_def min_absorb2)

lemma engineSort_twice:
  assumes anti: "\<And>a b. js_lt0 (cmp a b) \<Longrightarrow> \<not> js_lt0 (cmp b a)"
    and "length xs < 64"
  shows "\<exists>ys. engineSort cmp xs = Some ys \<and> engineSort cmp ys = Some ys"
proof -
  let ?ys = "binaryInsertionSort cmp (fst (countAndMakeRun cmp xs)) (snd (countAndMakeRun cmp xs))"
  from assms(2) have first: "engineSort cmp xs = Some ?ys"
    by (simp add: engineSort_def split: prod.splits)
  have len: "length ?ys = length xs"
    by (simp add: length_binaryInsertionSort length_countAndMakeRun)
  have "inRunOrder cmp ?ys"
    by (intro inRunOrder_binaryInsertionSort inRunOrder_run anti)
  then have "countAndMakeRun cmp ?ys = (?ys, [])" by (rule countAndMakeRun_inRunOrder)
  with len assms(2) have "engineSort cmp ?ys = Some ?ys"
    by (simp add: engineSort_def binaryInsertionSort_def)
  with first show ?thesis by blast
qed

section \<open>The radius cutoff\<close>

lemma set_getRealFacilities:
  assumes "permuting arraySort"
  shows "set (getRealFacilities arraySort calc userCoords needTypes allFacilities) =
     {f \<in> withDetails calc userCoords `
            set (filterFacilitiesByServiceType (uniqueFacilities allFacilities) needTypes).
        withinRadius (maxDistance needTypes) f}"
  by (auto simp: getRealFacilities_def sortedFacilities_def permuting_set [OF assms])

lemma maxDistance_pos: "0 < maxDistance needTypes"
  by (simp add: maxDistance_def)

lemma withinRadius_known:
  "withinRadius maxD f \<Longrightarrow> distance f = Some d \<Longrightarrow> miles d = Num m \<Longrightarrow> 0 \<le> maxD \<Longrightarrow> m \<le> maxD"
  by (auto simp: withinRadius_def split: if_splits)

lemma example_unique:
  "uniqueFacilities [exampleNear, exampleUnlocated, exampleAntipodal, exampleRemote]
   = [exampleNear, exampleUnlocated, exampleAntipodal, exampleRemote]"
  by code_simp

lemma example_keep:
  "keepFacility [''emergency''] exampleNear" "keepFacility [''emergency''] exampleUnlocated"
  "keepFacility [''emergency''] exampleAntipodal" "keepFacility [''emergency''] exampleRemote"
  by code_simp+

lemma example_kept:
  "filterFacilitiesByServiceType
     (uniqueFacilities [exampleNear, exampleUnlocated, exampleAntipodal, exampleRemote]) [''emergency'']
   = [exampleNear, exampleUnlocated, exampleAntipodal, exampleRemote]"
  by (simp add: example_unique filterFacilitiesByServiceType_def example_keep)

lemma example_distances:
  "distance (withDetails exampleCalc (Some exampleCoords) exampleNear)
     = Some \<lparr>km = Num (111 / 4), miles = Num (69 / 4)\<rparr>"
  "distance (withDetails exampleCalc (Some exampleCoords) exampleUnlocated) = None"
  "distance (withDetails exampleCalc (Some exampleCoords) exampleAntipodal)
     = Some \<lparr>km = NaN, miles = NaN\<rparr>"
  "distance (withDetails exampleCalc (Some exampleCoords) exampleRemote)
     = Some \<lparr>km = Num 555, miles = Num 345\<rparr>"
  by (simp_all add: withDetails_def exampleCalc_def exampleCoords_def examplePlace_def
      exampleNear_def exampleUnlocated_def exampleAntipodal_def exampleRemote_def)

text \<open>
  C2. The radius is 31 miles, and 50 miles when support-groups is requested. Whatever
  the distance function returns and however the runtime's sort permutes the list, no
  facility in the final list has a number of miles above the radius, and every place
  that passed the relevance filter and has no distance, or a distance of NaN miles, is
  in the final list.
\<close>

theorem radius_cutoff:
  assumes "permuting arraySort"
  shows
   "(\<forall>f \<in> set (getRealFacilities arraySort calc userCoords needTypes allFacilities).
      \<forall>d m. distance f = Some d \<longrightarrow> miles d = Num m \<longrightarrow> m \<le> maxDistance needTypes) \<and>
    (\<forall>p \<in> set (filterFacilitiesByServiceType (uniqueFacilities allFacilities) needTypes).
      distance (withDetails calc userCoords p) = None \<longrightarrow>
      withDetails calc userCoords p
        \<in> set (getRealFacilities arraySort calc userCoords needTypes allFacilities)) \<and>
    (\<forall>p \<in> set (filterFacilitiesByServiceType (uniqueFacilities allFacilities) needTypes).
      \<forall>d. distance (withDetails calc userCoords p) = Some d \<longrightarrow> miles d = NaN \<longrightarrow>
      withDetails calc userCoords p
        \<in> set (getRealFacilities arraySort calc userCoords needTypes allFacilities)) \<and>
    maxDistance needTypes = (if arr_includes needTypes ''support-groups'' then 50 else 31)"
proof (intro conjI ballI allI impI)
  note s = set_getRealFacilities [OF assms]
  fix f d m
  assume "f \<in> set (getRealFacilities arraySort calc userCoords needTypes allFacilities)"
    and "distance f = Some d" and "miles d = Num m"
  then show "m \<le> maxDistance needTypes"
    using withinRadius_known [of "maxDistance needTypes" f d m] maxDistance_pos [of needTypes]
    by (simp add: s)
next
  note s = set_getRealFacilities [OF assms]
  fix p
  assume "p \<in> set (filterFacilitiesByServiceType (uniqueFacilities allFacilities) needTypes)"
    and "distance (withDetails calc userCoords p) = None"
  then show "withDetails calc userCoords p
      \<in> set (getRealFacilities arraySort calc userCoords needTypes allFacilities)"
    by (simp add: s withinRadius_def)
next
  note s = set_getRealFacilities [OF assms]
  fix p d
  assume "p \<in> set (filterFacilitiesByServiceType (uniqueFacilities allFacilities) needTypes)"
    and "distance (withDetails calc userCoords p) = Some d" and "miles d = NaN"
  then show "withDetails calc userCoords p
      \<in> set (getRealFacilities arraySort calc userCoords needTypes allFacilities)"
    by (simp add: s withinRadius_def)
next
  show "maxDistance needTypes = (if arr_includes needTypes ''support-groups'' then 50 else 31)"
    by (simp add: maxDistance_def)
qed

theorem radius_cutoff_witness:
  "withDetails exampleCalc (Some exampleCoords) exampleNear
     \<in> set (getRealFacilities insertionSort exampleCalc (Some exampleCoords) [''emergency'']
           [exampleNear, exampleUnlocated, exampleAntipodal, exampleRemote]) \<and>
   (69 / 4 :: real) \<le> maxDistance [''emergency''] \<and>
   withDetails exampleCalc (Some exampleCoords) exampleUnlocated
     \<in> set (getRealFacilities insertionSort exampleCalc (Some exampleCoords) [''emergency'']
           [exampleNear, exampleUnlocated, exampleAntipodal, exampleRemote]) \<and>
   withDetails exampleCalc (Some exampleCoords) exampleAntipodal
     \<in> set (getRealFacilities insertionSort exampleCalc (Some exampleCoords) [''emergency'']
           [exampleNear, exampleUnlocated, exampleAntipodal, exampleRemote]) \<and>
   withDetails exampleCalc (Some exampleCoords) exampleRemote
     \<notin> set (getRealFacilities insertionSort exampleCalc (Some exampleCoords) [''emergency'']
           [exampleNear, exampleUnlocated, exampleAntipodal, exampleRemote])"
proof -
  let ?all = "[exampleNear, exampleUnlocated, exampleAntipodal, exampleRemote]"
  let ?out = "getRealFacilities insertionSort exampleCalc (Some exampleCoords) [''emergency''] ?all"
  note c = radius_cutoff [OF permuting_insertionSort, of exampleCalc "Some exampleCoords"
      "[''emergency'']" ?all]
  note s = set_getRealFacilities [OF permuting_insertionSort, of exampleCalc "Some exampleCoords"
      "[''emergency'']" ?all]
  have near: "withDetails exampleCalc (Some exampleCoords) exampleNear \<in> set ?out"
    by (simp add: s example_kept withinRadius_def example_distances maxDistance_def arr_includes_def)
  have remote: "withDetails exampleCalc (Some exampleCoords) exampleRemote \<notin> set ?out"
    by (simp add: s withinRadius_def example_distances maxDistance_def arr_includes_def)
  have mem: "exampleUnlocated \<in> set (filterFacilitiesByServiceType (uniqueFacilities ?all) [''emergency''])"
    "exampleAntipodal \<in> set (filterFacilitiesByServiceType (uniqueFacilities ?all) [''emergency''])"
    by (simp_all add: example_kept)
  from c near remote mem example_distances show ?thesis by force
qed

section \<open>Ranking\<close>










text \<open>
  The first of the two runs does not depend on the engine: on that list the comparator
  answers 0 for every pair, and every sort that keeps the language's promises returns
  the list as it is.
\<close>

lemma missing_distance_first_in_every_engine:
  assumes "conforming arraySort"
  shows "arraySort (rankCompare [''rehabilitation''])
     [exampleFacility ''Rehab One'' None, exampleFacility ''Rehab Two'' (km_miles 2 1)]
   = [exampleFacility ''Rehab One'' None, exampleFacility ''Rehab Two'' (km_miles 2 1)]"
proof -
  let ?fs = "[exampleFacility ''Rehab One'' None, exampleFacility ''Rehab Two'' (km_miles 2 1)]"
  let ?key = "\<lambda>f :: Facility. (0 :: int, 0 :: real)"
  have "agrees (rankCompare [''rehabilitation'']) ?key (set ?fs)"
    by (simp add: agrees_def rankCompare_def arr_includes_def distanceDifference_def
        exampleFacility_def km_miles_def js_sub_def js_lt0_def js_gt0_def Let_def)
  with assms have "arraySort (rankCompare [''rehabilitation'']) ?fs = sort_key ?key ?fs"
    by (simp add: conforming_def)
  then show ?thesis by simp
qed

text \<open>A run of the engine's algorithm in which the binary search moves an element.\<close>

lemma engine_example:
  "engineSort (rankCompare [''rehabilitation''])
     [exampleFacility ''A'' (km_miles 8 5), exampleFacility ''B'' (km_miles 5 3),
      exampleFacility ''C'' None, exampleFacility ''D'' (km_miles 6 4)]
   = Some [exampleFacility ''B'' (km_miles 5 3), exampleFacility ''D'' (km_miles 6 4),
      exampleFacility ''A'' (km_miles 8 5), exampleFacility ''C'' None]"
  by (simp add: engineSort_def binaryInsertionSort_def insertPivot_def findSlot.simps
      rankCompare_def arr_includes_def
      distanceDifference_def exampleFacility_def km_miles_def js_sub_def js_lt0_def Let_def)

section \<open>The priority score\<close>













lemma score_city_medical_center: "priorityScore (toLowerCase ''City Medical Center'') = 0"
  by code_simp




section \<open>The sort route\<close>

text \<open>
  When every entry has distance data the comparator of the route is a consistent
  ordering, and sorting the sorted list again by distance changes nothing.
\<close>

lemma distanceCompare_agrees:
  assumes "\<forall>f \<in> S. \<exists>d m. distance_out f = Some d \<and> miles d = Num m"
  shows "agrees distanceCompare
      (\<lambda>f. (0, case distance_out f of None \<Rightarrow> 0
                 | Some d \<Rightarrow> (case miles d of NaN \<Rightarrow> 0 | Num m \<Rightarrow> m))) S"
  unfolding agrees_def
proof (intro ballI)
  fix a b assume "a \<in> S" and "b \<in> S"
  with assms obtain da ma db mb where
    "distance_out a = Some da" "miles da = Num ma" "distance_out b = Some db" "miles db = Num mb"
    by blast
  then show "js_lt0 (distanceCompare a b) =
       ((0::int, case distance_out a of None \<Rightarrow> 0 | Some d \<Rightarrow> (case miles d of NaN \<Rightarrow> 0 | Num m \<Rightarrow> m))
        < (0, case distance_out b of None \<Rightarrow> 0 | Some d \<Rightarrow> (case miles d of NaN \<Rightarrow> 0 | Num m \<Rightarrow> m))) \<and>
      js_gt0 (distanceCompare a b) =
       ((0::int, case distance_out b of None \<Rightarrow> 0 | Some d \<Rightarrow> (case miles d of NaN \<Rightarrow> 0 | Num m \<Rightarrow> m))
        < (0, case distance_out a of None \<Rightarrow> 0 | Some d \<Rightarrow> (case miles d of NaN \<Rightarrow> 0 | Num m \<Rightarrow> m)))"
    by (simp add: distanceCompare_def distanceDifference_def js_sub_def js_lt0_def js_gt0_def
        less_prod_def)
qed

lemma sort_by_distance_twice_when_known:
  assumes "conforming arraySort"
    and "\<forall>f \<in> set fs. \<exists>d m. distance_out f = Some d \<and> miles d = Num m"
  shows "sortRoute arraySort (Some (arraySort distanceCompare fs)) ''distance''
       = sortRoute arraySort (Some fs) ''distance''"
proof -
  let ?key = "\<lambda>f. (0::int, case distance_out f of None \<Rightarrow> 0
                 | Some d \<Rightarrow> (case miles d of NaN \<Rightarrow> 0 | Num m \<Rightarrow> (m::real)))"
  from assms have first: "arraySort distanceCompare fs = sort_key ?key fs"
    using distanceCompare_agrees [of "set fs"] by (simp add: conforming_def)
  from assms(2) have "\<forall>f \<in> set (sort_key ?key fs). \<exists>d m. distance_out f = Some d \<and> miles d = Num m"
    by simp
  then have "agrees distanceCompare ?key (set (sort_key ?key fs))"
    by (rule distanceCompare_agrees)
  with assms(1) have "arraySort distanceCompare (sort_key ?key fs) = sort_key ?key (sort_key ?key fs)"
    by (simp add: conforming_def)
  also have "\<dots> = sort_key ?key fs"
    by (rule sort_key_id_if_sorted) (rule sorted_sort_key)
  finally show ?thesis by (simp add: sortRoute_def first)
qed

text \<open>
  With entries that lack distance data the comparator is not a consistent ordering. For
  arrays of fewer than 64 entries the engine's algorithm still returns its own result
  unchanged.
\<close>

lemma distanceCompare_anti:
  "js_lt0 (distanceCompare a b) \<Longrightarrow> \<not> js_lt0 (distanceCompare b a)"
  by (auto simp: distanceCompare_def distanceDifference_def js_sub_def js_lt0_def
      split: option.splits jsnum.splits)

lemma engine_sort_by_distance_twice:
  "length fs < 64 \<Longrightarrow>
   \<exists>sorted. engineSort distanceCompare fs = Some sorted \<and>
            engineSort distanceCompare sorted = Some sorted"
  by (rule engineSort_twice) (auto dest: distanceCompare_anti)

end
